theory Spec2Isabelle
  imports Complex_Main "HOL-Library.Log_Nat"
begin

section \<open>JavaScript values used by the hr/mute plugin\<close>

text \<open>
  The plugin \<^verbatim>\<open>hr/mute\<close> (second module of \<^verbatim>\<open>src/hr/always-one-admin.js\<close>) receives
  command arguments typed \<^verbatim>\<open>string|number\<close>. A JavaScript number is an IEEE double:
  NaN, the two infinities, or a finite value, kept here as the rational it denotes
  (the two zeros are identified, as \<^verbatim>\<open>===\<close> does). A JavaScript string is a list of
  code units; the model covers the code units below 256.
\<close>

datatype jsnum = NaN | PosInf | NegInf | Fin rat

datatype jsval = Num jsnum | Str string

datatype error = TypeError | SyntaxError

definition isNaN :: "jsnum \<Rightarrow> bool" where
  "isNaN x = (x = NaN)"

definition negate :: "jsnum \<Rightarrow> jsnum" where
  "negate x = (case x of NaN \<Rightarrow> NaN | PosInf \<Rightarrow> NegInf | NegInf \<Rightarrow> PosInf | Fin q \<Rightarrow> Fin (- q))"

subsection \<open>Rounding a non-negative rational to the nearest double\<close>

definition round_half_even :: "rat \<Rightarrow> int" where
  "round_half_even q =
     (let f = \<lfloor>q\<rfloor>; d = q - of_int f
      in if d < 1 / 2 then f else if 1 / 2 < d then f + 1 else if even f then f else f + 1)"

text \<open>
  The finite doubles are the values \<open>m * 2 ^ k / 2 ^ 1074\<close> with \<open>m < 2 ^ 53\<close> and
  \<open>k \<le> 2045\<close>. \<open>toDouble q\<close> scales \<open>q\<close> by \<open>2 ^ 1074\<close>, picks the binade from the bit
  length of the integer part, rounds the significand to nearest (ties to even) and
  overflows to infinity from \<open>2 ^ 1024\<close> on.
\<close>

definition toDouble :: "rat \<Rightarrow> jsnum" where
  "toDouble q =
     (let s = q * 2 ^ 1074;
          k = nat (bitlen \<lfloor>s\<rfloor> - 53);
          m = round_half_even (s / 2 ^ k)
      in if (2::int) ^ 2098 \<le> m * 2 ^ k then PosInf
         else Fin (of_int (m * 2 ^ k) / 2 ^ 1074))"

subsection \<open>Unary plus on a string: StringToNumber\<close>

text \<open>
  \<^verbatim>\<open>+s\<close> on a string trims white space and line terminators, reads the blank string
  as 0, and otherwise reads a literal: a binary, octal or hexadecimal integer
  (\<^verbatim>\<open>0b\<close>, \<^verbatim>\<open>0o\<close>, \<^verbatim>\<open>0x\<close>, unsigned), or an optional sign followed by \<^verbatim>\<open>Infinity\<close> or by
  decimal digits with an optional fraction and exponent. Any other string is NaN. The
  value of the literal is rounded to the nearest double.
\<close>

definition isStrWhiteSpaceChar :: "char \<Rightarrow> bool" where
  "isStrWhiteSpaceChar c = ((of_char c :: nat) \<in> {9, 10, 11, 12, 13, 32, 160})"

definition trimString :: "string \<Rightarrow> string" where
  "trimString s = rev (dropWhile isStrWhiteSpaceChar (rev (dropWhile isStrWhiteSpaceChar s)))"

definition isDecimalDigit :: "char \<Rightarrow> bool" where
  "isDecimalDigit c = (48 \<le> (of_char c :: nat) \<and> (of_char c :: nat) \<le> 57)"

definition isHexDigit :: "char \<Rightarrow> bool" where
  "isHexDigit c =
     (let n = (of_char c :: nat)
      in (48 \<le> n \<and> n \<le> 57) \<or> (65 \<le> n \<and> n \<le> 70) \<or> (97 \<le> n \<and> n \<le> 102))"

definition isOctalDigit :: "char \<Rightarrow> bool" where
  "isOctalDigit c = (48 \<le> (of_char c :: nat) \<and> (of_char c :: nat) \<le> 55)"

definition isBinaryDigit :: "char \<Rightarrow> bool" where
  "isBinaryDigit c = (c = CHR ''0'' \<or> c = CHR ''1'')"

definition digitValue :: "char \<Rightarrow> nat" where
  "digitValue c =
     (let n = (of_char c :: nat)
      in if n \<le> 57 then n - 48 else if n \<le> 70 then n - 55 else n - 87)"

definition digitsValue :: "nat \<Rightarrow> string \<Rightarrow> nat" where
  "digitsValue b s = foldl (\<lambda>acc c. acc * b + digitValue c) 0 s"

definition parseNonDecimalIntegerLiteral :: "string \<Rightarrow> nat option" where
  "parseNonDecimalIntegerLiteral s =
     (case s of
        z # c # ds \<Rightarrow>
          if z \<noteq> CHR ''0'' \<or> ds = [] then None
          else if (c = CHR ''x'' \<or> c = CHR ''X'') \<and> list_all isHexDigit ds
            then Some (digitsValue 16 ds)
          else if (c = CHR ''o'' \<or> c = CHR ''O'') \<and> list_all isOctalDigit ds
            then Some (digitsValue 8 ds)
          else if (c = CHR ''b'' \<or> c = CHR ''B'') \<and> list_all isBinaryDigit ds
            then Some (digitsValue 2 ds)
          else None
      | _ \<Rightarrow> None)"

definition parseSignedInteger :: "string \<Rightarrow> int option" where
  "parseSignedInteger s =
     (let neg = (s \<noteq> [] \<and> hd s = CHR ''-'');
          ds = (if s \<noteq> [] \<and> (hd s = CHR ''+'' \<or> hd s = CHR ''-'') then tl s else s)
      in if ds \<noteq> [] \<and> list_all isDecimalDigit ds
         then Some (if neg then - int (digitsValue 10 ds) else int (digitsValue 10 ds))
         else None)"

definition parseExponentPart :: "string \<Rightarrow> int option" where
  "parseExponentPart s =
     (case s of
        [] \<Rightarrow> Some 0
      | c # r \<Rightarrow> if c = CHR ''e'' \<or> c = CHR ''E'' then parseSignedInteger r else None)"

definition parseStrUnsignedDecimalLiteral :: "string \<Rightarrow> rat option" where
  "parseStrUnsignedDecimalLiteral s =
     (let ip = takeWhile isDecimalDigit s;
          r1 = dropWhile isDecimalDigit s;
          hasDot = (r1 \<noteq> [] \<and> hd r1 = CHR ''.'');
          fp = (if hasDot then takeWhile isDecimalDigit (tl r1) else []);
          r2 = (if hasDot then dropWhile isDecimalDigit (tl r1) else r1)
      in if ip = [] \<and> fp = [] then None
         else case parseExponentPart r2 of
                None \<Rightarrow> None
              | Some e \<Rightarrow> Some (of_nat (digitsValue 10 (ip @ fp)) * 10 powi (e - int (length fp))))"

definition StringToNumber :: "string \<Rightarrow> jsnum" where
  "StringToNumber s =
     (let t = trimString s
      in if t = [] then Fin 0
         else case parseNonDecimalIntegerLiteral t of
                Some n \<Rightarrow> toDouble (of_nat n)
              | None \<Rightarrow>
                 (let neg = (hd t = CHR ''-'');
                      u = (if hd t = CHR ''+'' \<or> hd t = CHR ''-'' then tl t else t)
                  in if u = ''Infinity'' then (if neg then NegInf else PosInf)
                     else case parseStrUnsignedDecimalLiteral u of
                            None \<Rightarrow> NaN
                          | Some q \<Rightarrow> if neg then negate (toDouble q) else toDouble q))"

definition ToNumber :: "jsval \<Rightarrow> jsnum" where
  "ToNumber v = (case v of Num n \<Rightarrow> n | Str s \<Rightarrow> StringToNumber s)"

definition startsWith :: "string \<Rightarrow> string \<Rightarrow> bool" where
  "startsWith s p = (take (length p) s = p)"

text \<open>The decimal numeral of a natural number, as a template literal prints a loop index.\<close>

fun natToString :: "nat \<Rightarrow> string" where
  "natToString n =
     (if n < 10 then [char_of (48 + n)]
      else natToString (n div 10) @ [char_of (48 + n mod 10)])"

declare natToString.simps [simp del]

section \<open>The identifier parser\<close>

text \<open>
  \<^verbatim>\<open>parseId(id)\<close>: \<open>None\<close> is the \<^verbatim>\<open>null\<close> the source returns when the id cannot be
  parsed. \<^verbatim>\<open>pId.slice(1)\<close> is \<open>tl\<close> on a string that starts with \<^verbatim>\<open>#\<close>.
\<close>

definition parseId :: "jsval \<Rightarrow> jsnum option" where
  "parseId pId =
     (if isNaN (ToNumber pId) then
        (case pId of
           Str s \<Rightarrow>
             if startsWith s ''#'' then
               (let n = StringToNumber (drop 1 s) in if isNaN n then None else Some n)
             else None
         | Num _ \<Rightarrow> None)
      else Some (ToNumber pId))"

section \<open>The mute store\<close>

text \<open>
  \<^verbatim>\<open>let muteMap = new Map()\<close>: a JavaScript \<^verbatim>\<open>Map\<close> iterates in insertion order, so it is
  a list of key/value pairs with distinct keys. \<^verbatim>\<open>set\<close> on a key that is present replaces
  the value where the entry stands; on a new key it appends. \<^verbatim>\<open>delete\<close> removes the entry.
\<close>

primrec Map_set :: "('k \<times> 'v) list \<Rightarrow> 'k \<Rightarrow> 'v \<Rightarrow> ('k \<times> 'v) list" where
  "Map_set [] k v = [(k, v)]"
| "Map_set (e # es) k v = (if fst e = k then (k, v) # es else e # Map_set es k v)"

primrec Map_delete :: "('k \<times> 'v) list \<Rightarrow> 'k \<Rightarrow> ('k \<times> 'v) list" where
  "Map_delete [] k = []"
| "Map_delete (e # es) k = (if fst e = k then es else e # Map_delete es k)"

definition Map_has :: "('k \<times> 'v) list \<Rightarrow> 'k \<Rightarrow> bool" where
  "Map_has m k = (k \<in> set (map fst m))"

definition Map_get :: "('k \<times> 'v) list \<Rightarrow> 'k \<Rightarrow> 'v option" where
  "Map_get m k = map_of m k"

definition Map_keys :: "('k \<times> 'v) list \<Rightarrow> 'k list" where
  "Map_keys m = map fst m"

definition Map_values :: "('k \<times> 'v) list \<Rightarrow> 'v list" where
  "Map_values m = map snd m"

record player =
  conn :: string
  player_id :: nat
  name :: string
  team :: nat

type_synonym muteMap = "(string \<times> player) list"

text \<open>
  The key of an entry is \<^verbatim>\<open>player.conn\<close>, the identity token the host gives a connection:
  the connection's address written in hexadecimal digits.
\<close>

definition isIdentityToken :: "string \<Rightarrow> bool" where
  "isIdentityToken s = (s \<noteq> [] \<and> list_all isHexDigit s)"

section \<open>The room: collaborators, configuration and effects\<close>

text \<open>
  A plain object as \<^verbatim>\<open>serializeMuteMap\<close> fills it: its own properties, in the order
  \<^verbatim>\<open>JSON.stringify\<close> and \<^verbatim>\<open>Object.getOwnPropertyNames\<close> enumerate them.
\<close>

type_synonym jsobject = "(string \<times> player) list"

record roles_plugin =
  hasPlayerRole :: "nat \<Rightarrow> string \<Rightarrow> bool"
  ensurePlayerRoles :: "nat \<Rightarrow> string list \<Rightarrow> bool"

text \<open>
  What the plugin reads from \<^verbatim>\<open>room\<close> and from the runtime: the player directory, the
  configuration (\<open>protectedRoles\<close> is \<open>None\<close> when the configured value is not an array),
  the \<^verbatim>\<open>sav/roles\<close> plugin (\<open>None\<close> when \<^verbatim>\<open>getPlugin\<close> finds none), and the built-ins
  the code calls but does not define.
\<close>

record room =
  getPlayer :: "jsnum option \<Rightarrow> player option"
  getPlayerList :: "player list"
  muteMessage :: string
  protectedRoles :: "string list option"
  allowedRoles :: "string list"
  allowTalkingWhenCaptain :: bool
  sav_roles :: "roles_plugin option"
  Number_toString :: "jsnum \<Rightarrow> string"
  JSON_stringify :: "jsobject \<Rightarrow> string"
  JSON_parse :: "string \<Rightarrow> error + jsobject"

text \<open>
  The calls that leave the plugin, in the order they are made:
  \<^verbatim>\<open>room.sendAnnouncement(msg, targetId, color)\<close> (\<open>None\<close> is the target \<^verbatim>\<open>null\<close>),
  \<^verbatim>\<open>utils.sendLongAnnouncement(msg, targetId, color)\<close> and
  \<^verbatim>\<open>room.getPlugin("hhm/persistence").persistPluginData(room)\<close>.
\<close>

datatype event =
    SendAnnouncement string "nat option" nat
  | SendLongAnnouncement string "nat option" nat
  | PersistPluginData

definition ToString :: "room \<Rightarrow> jsval \<Rightarrow> string" where
  "ToString r v = (case v of Str s \<Rightarrow> s | Num n \<Rightarrow> Number_toString r n)"

section \<open>Mute store operations of the plugin\<close>

definition mutePlayer :: "player \<Rightarrow> muteMap \<Rightarrow> muteMap \<times> event list" where
  "mutePlayer p m = (Map_set m (conn p) p, [PersistPluginData])"

text \<open>\<^verbatim>\<open>i === indexOrPlayerId\<close> for the loop counter \<open>i\<close>: a string is never strictly equal to it.\<close>

definition strictEqualsCounter :: "nat \<Rightarrow> jsval \<Rightarrow> bool" where
  "strictEqualsCounter i v = (case v of Num (Fin q) \<Rightarrow> q = of_nat i | _ \<Rightarrow> False)"

text \<open>The \<^verbatim>\<open>for (let key of muteMap.keys())\<close> loop of \<^verbatim>\<open>removeMute\<close>, counter \<open>i\<close>.\<close>

fun removeMute_loop ::
  "jsval \<Rightarrow> nat \<Rightarrow> string list \<Rightarrow> muteMap \<Rightarrow> player option \<times> muteMap \<times> event list" where
  "removeMute_loop indexOrPlayerId i [] m = (None, m, [])"
| "removeMute_loop indexOrPlayerId i (key # keys) m =
     (if strictEqualsCounter i indexOrPlayerId
      then (Map_get m key, Map_delete m key, [PersistPluginData])
      else removeMute_loop indexOrPlayerId (Suc i) keys m)"

definition isHashPrefixed :: "jsval \<Rightarrow> bool" where
  "isHashPrefixed v = (case v of Str s \<Rightarrow> startsWith s ''#'' | Num _ \<Rightarrow> False)"

definition removeMute ::
  "room \<Rightarrow> jsval \<Rightarrow> muteMap \<Rightarrow> player option \<times> muteMap \<times> event list" where
  "removeMute r indexOrPlayerId m =
     (if isHashPrefixed indexOrPlayerId then
        (case getPlayer r (parseId indexOrPlayerId) of
           None \<Rightarrow> (None, m, [])
         | Some removedPlayer \<Rightarrow>
             if \<not> Map_has m (conn removedPlayer) then (None, m, [])
             else (Some removedPlayer, Map_delete m (conn removedPlayer), [PersistPluginData]))
      else if isNaN (ToNumber indexOrPlayerId) then (None, m, [])
      else removeMute_loop indexOrPlayerId 0 (Map_keys m) m)"

definition isPlayerTeamCaptain :: "room \<Rightarrow> player \<Rightarrow> bool" where
  "isPlayerTeamCaptain r p =
     (let playerList = getPlayerList r;
          redTeamCap = find (\<lambda>q. team q = 1) playerList;
          blueTeamCap = find (\<lambda>q. team q = 2) playerList
      in (case redTeamCap of None \<Rightarrow> False | Some c \<Rightarrow> player_id c = player_id p)
         \<or> (case blueTeamCap of None \<Rightarrow> False | Some c \<Rightarrow> player_id c = player_id p))"

definition findPlayerInRoomWithConn :: "room \<Rightarrow> string \<Rightarrow> player option" where
  "findPlayerInRoomWithConn r c = find (\<lambda>p. conn p = c) (getPlayerList r)"

section \<open>The authorization gate\<close>

text \<open>
  \<^verbatim>\<open>isPlayerProtected\<close> reads \<^verbatim>\<open>roles.hasPlayerRole\<close> without testing \<^verbatim>\<open>roles\<close>: with no
  \<^verbatim>\<open>sav/roles\<close> plugin the first iteration of the loop raises a TypeError.
\<close>

definition isPlayerProtected :: "room \<Rightarrow> nat \<Rightarrow> error + bool" where
  "isPlayerProtected r playerId =
     (case protectedRoles r of
        None \<Rightarrow> Inr False
      | Some roleNames \<Rightarrow>
          (case sav_roles r of
             None \<Rightarrow> if roleNames = [] then Inr False else Inl TypeError
           | Some roles \<Rightarrow> Inr (list_ex (\<lambda>role. hasPlayerRole roles playerId role) roleNames)))"

definition isPlayerAllowedToRunCommand :: "room \<Rightarrow> player \<Rightarrow> bool" where
  "isPlayerAllowedToRunCommand r p =
     (case sav_roles r of
        None \<Rightarrow> False
      | Some roles \<Rightarrow> ensurePlayerRoles roles (player_id p) (allowedRoles r))"

section \<open>Persisting the store\<close>

text \<open>
  \<^verbatim>\<open>serializedMuteMap[key] = value\<close> on the plain object \<^verbatim>\<open>{}\<close>. The key \<^verbatim>\<open>__proto__\<close>
  reaches the setter inherited from \<^verbatim>\<open>Object.prototype\<close>, which creates no own property.
  An own key is overwritten where it stands. A new key that is an array index (the
  canonical numeral of an integer up to \<open>2 ^ 32 - 2\<close>) is enumerated among the array
  indices, in ascending order, before every other key; any other new key comes last.
\<close>

definition isArrayIndex :: "string \<Rightarrow> bool" where
  "isArrayIndex k =
     (k \<noteq> [] \<and> list_all isDecimalDigit k \<and> (k = ''0'' \<or> hd k \<noteq> CHR ''0'')
      \<and> digitsValue 10 k \<le> 4294967294)"

fun insertArrayIndex :: "string \<Rightarrow> 'v \<Rightarrow> (string \<times> 'v) list \<Rightarrow> (string \<times> 'v) list" where
  "insertArrayIndex k v [] = [(k, v)]"
| "insertArrayIndex k v (e # es) =
     (if isArrayIndex (fst e) \<and> digitsValue 10 (fst e) < digitsValue 10 k
      then e # insertArrayIndex k v es
      else (k, v) # e # es)"

definition Object_set :: "jsobject \<Rightarrow> string \<Rightarrow> player \<Rightarrow> jsobject" where
  "Object_set obj k v =
     (if k = ''__proto__'' then obj
      else if isArrayIndex k \<and> \<not> Map_has obj k then insertArrayIndex k v obj
      else Map_set obj k v)"

definition muteMapToObject :: "muteMap \<Rightarrow> jsobject" where
  "muteMapToObject m = fold (\<lambda>(key, value) obj. Object_set obj key value) m []"

definition serializeMuteMap :: "room \<Rightarrow> muteMap \<Rightarrow> string" where
  "serializeMuteMap r m = JSON_stringify r (muteMapToObject m)"

text \<open>
  \<^verbatim>\<open>deserializeMuteMap\<close>: \<open>JSON_parse\<close> gives the own properties of the parsed object, or
  the error the parse raises. For an own property name \<^verbatim>\<open>key\<close>, \<^verbatim>\<open>obj[key]\<close> is the value
  stored under it, so the loop over \<^verbatim>\<open>Object.getOwnPropertyNames(obj)\<close> runs over the pairs.
\<close>

definition deserializeMuteMap :: "room \<Rightarrow> string \<Rightarrow> error + muteMap" where
  "deserializeMuteMap r data =
     (case JSON_parse r data of
        Inl e \<Rightarrow> Inl e
      | Inr obj \<Rightarrow> Inr (fold (\<lambda>(key, value) mm. Map_set mm key value) obj []))"

definition handlePersistData :: "room \<Rightarrow> muteMap \<Rightarrow> string" where
  "handlePersistData r m = serializeMuteMap r m"

text \<open>\<^verbatim>\<open>handleRestoreData(data)\<close>: \<open>None\<close> is \<^verbatim>\<open>undefined\<close>; the result is the new \<^verbatim>\<open>muteMap\<close>.\<close>

definition handleRestoreData :: "room \<Rightarrow> string option \<Rightarrow> muteMap \<Rightarrow> error + muteMap" where
  "handleRestoreData r data m =
     (case data of None \<Rightarrow> Inr m | Some d \<Rightarrow> deserializeMuteMap r d)"

section \<open>Commands\<close>

text \<open>Each handler returns the store it leaves and the calls it made, in order.\<close>

definition onCommand1_mute ::
  "room \<Rightarrow> player \<Rightarrow> jsval \<Rightarrow> muteMap \<Rightarrow> error + (muteMap \<times> event list)" where
  "onCommand1_mute r byPlayer idArg m =
     (if \<not> isPlayerAllowedToRunCommand r byPlayer then Inr (m, [])
      else case getPlayer r (parseId idArg) of
        None \<Rightarrow>
          Inr (m, [SendAnnouncement (''No player with id '' @ ToString r idArg @ ''.'')
                     (Some (player_id byPlayer)) 0xFF0000])
      | Some p \<Rightarrow>
          (case isPlayerProtected r (player_id p) of
             Inl e \<Rightarrow> Inl e
           | Inr True \<Rightarrow>
               Inr (m, [SendAnnouncement ''This player has immunity for mutes.''
                          (Some (player_id byPlayer)) 0xFF0000])
           | Inr False \<Rightarrow>
               (case mutePlayer p m of
                  (m', evs) \<Rightarrow>
                    Inr (m', evs @
                      [SendAnnouncement (''Player '' @ name p @ '' muted.'')
                         (Some (player_id byPlayer)) 0x00FF00,
                       SendAnnouncement ''You have been muted.'' (Some (player_id p)) 0xFF0000]))))"

definition onCommand1_unmute ::
  "room \<Rightarrow> player \<Rightarrow> jsval \<Rightarrow> muteMap \<Rightarrow> muteMap \<times> event list" where
  "onCommand1_unmute r byPlayer muteNumber m =
     (if \<not> isPlayerAllowedToRunCommand r byPlayer then (m, [])
      else case removeMute r muteNumber m of
        (None, m', evs) \<Rightarrow>
          (m', evs @
            [SendAnnouncement
               (''Could not unmute '' @ ToString r muteNumber @ ''! '' @
                ''Make sure the argument is either a number listed '' @
                ''in !mutelist or player ID prefixed with #.'')
               (Some (player_id byPlayer)) 0xFF0000])
      | (Some unmutedPlayer, m', evs) \<Rightarrow>
          (m', evs @
            [SendAnnouncement (''Player '' @ name unmutedPlayer @ '' unmuted.'')
               (Some (player_id byPlayer)) 0x00FF00] @
            (case findPlayerInRoomWithConn r (conn unmutedPlayer) of
               None \<Rightarrow> []
             | Some playerInRoom \<Rightarrow>
                 [SendAnnouncement ''You have been unmuted.''
                    (Some (player_id playerInRoom)) 0x00FF00])))"

definition onCommand0_clearmutes :: "room \<Rightarrow> player \<Rightarrow> muteMap \<Rightarrow> muteMap \<times> event list" where
  "onCommand0_clearmutes r byPlayer m =
     (if \<not> isPlayerAllowedToRunCommand r byPlayer then (m, [])
      else ([], [SendAnnouncement ''All mutes cleared!'' None 0x00FF00]))"

fun join :: "string \<Rightarrow> string list \<Rightarrow> string" where
  "join sep [] = []"
| "join sep [x] = x"
| "join sep (x # y # ys) = x @ sep @ join sep (y # ys)"

definition onCommand0_mutelist :: "room \<Rightarrow> player \<Rightarrow> muteMap \<Rightarrow> muteMap \<times> event list" where
  "onCommand0_mutelist r byPlayer m =
     (if \<not> isPlayerAllowedToRunCommand r byPlayer then (m, [])
      else if length m = 0 then
        (m, [SendAnnouncement ''No muted players.'' (Some (player_id byPlayer)) 0xFF0000])
      else
        (let mutelist = map (\<lambda>(i, p). natToString i @ '' - '' @ name p)
                            (enumerate 0 (Map_values m))
         in (m, [SendAnnouncement ''MUTE_NUMBER - PLAYER'' (Some (player_id byPlayer)) 0x00FF00,
                 SendLongAnnouncement (join [CHR 0x0A] mutelist)
                   (Some (player_id byPlayer)) 0x00FF00])))"

section \<open>Exported query and chat hook\<close>

definition isMuted :: "muteMap \<Rightarrow> player \<Rightarrow> bool" where
  "isMuted m p = Map_has m (conn p)"

text \<open>
  \<^verbatim>\<open>handlePlayerChat\<close> returns \<^verbatim>\<open>false\<close> (\<open>Some False\<close>) to suppress the message and
  \<^verbatim>\<open>undefined\<close> (\<open>None\<close>) otherwise.
\<close>

definition handlePlayerChat :: "room \<Rightarrow> player \<Rightarrow> muteMap \<Rightarrow> bool option \<times> event list" where
  "handlePlayerChat r p m =
     (if isMuted m p then
        (if allowTalkingWhenCaptain r \<and> isPlayerTeamCaptain r p then (None, [])
         else (Some False, [SendAnnouncement (muteMessage r) (Some (player_id p)) 0xFF0000]))
      else (None, []))"

section \<open>A room to run the plugin in\<close>

text \<open>
  Three players in the room (alice and bob hold the role \<^verbatim>\<open>admin\<close>, everybody holds
  \<^verbatim>\<open>player\<close>), the configuration of the plugin's \<^verbatim>\<open>pluginSpec\<close>, and the JSON text of
  one object. \<open>dave\<close> is the snapshot of a player that has left; the \<open>conn\<close> of
  \<open>mallory\<close> is no identity token of the host.
\<close>

definition alice :: player where
  "alice = \<lparr>conn = ''3139322E3136382E312E31'', player_id = 1, name = ''alice'', team = 1\<rparr>"

definition bob :: player where
  "bob = \<lparr>conn = ''3139322E3136382E312E32'', player_id = 2, name = ''bob'', team = 2\<rparr>"

definition carol :: player where
  "carol = \<lparr>conn = ''3139322E3136382E312E33'', player_id = 3, name = ''carol'', team = 1\<rparr>"

definition dave :: player where
  "dave = \<lparr>conn = ''42'', player_id = 4, name = ''dave'', team = 0\<rparr>"

definition mallory :: player where
  "mallory = \<lparr>conn = ''__proto__'', player_id = 5, name = ''mallory'', team = 0\<rparr>"

definition exampleRoles :: roles_plugin where
  "exampleRoles =
     \<lparr>hasPlayerRole =
        (\<lambda>pid role. (role = ''admin'' \<and> (pid = 1 \<or> pid = 2)) \<or> role = ''player''),
      ensurePlayerRoles =
        (\<lambda>pid roleNames. (pid = 1 \<or> pid = 2) \<and> ''admin'' \<in> set roleNames)\<rparr>"

definition exampleObject :: jsobject where
  "exampleObject = [(''42'', dave), (conn alice, alice)]"

definition exampleBlob :: string where
  \<open>exampleBlob =
     ''{"42":{"conn":"42","id":4,"name":"dave","team":0},'' @
     ''"3139322E3136382E312E31":{"conn":"3139322E3136382E312E31","id":1,"name":"alice","team":1}}''\<close>

definition exampleRoom :: room where
  "exampleRoom =
     \<lparr>getPlayer =
        (\<lambda>n. case n of
               Some (Fin q) \<Rightarrow> find (\<lambda>p. of_nat (player_id p) = q) [alice, bob, carol]
             | _ \<Rightarrow> None),
      getPlayerList = [alice, bob, carol],
      muteMessage = ''You cannot send messages because you are muted.'',
      protectedRoles = Some [''host'', ''admin''],
      allowedRoles = [''admin'', ''admin''],
      allowTalkingWhenCaptain = False,
      sav_roles = Some exampleRoles,
      Number_toString =
        (\<lambda>n. case n of
               NaN \<Rightarrow> ''NaN'' | PosInf \<Rightarrow> ''Infinity'' | NegInf \<Rightarrow> ''-Infinity''
             | Fin q \<Rightarrow> natToString (nat \<lfloor>q\<rfloor>)),
      JSON_stringify = (\<lambda>obj. if obj = exampleObject then exampleBlob else ''{}''),
      JSON_parse =
        (\<lambda>s. if s = exampleBlob then Inr exampleObject
             else if s = ''{}'' then Inr [] else Inl SyntaxError)\<rparr>"

definition captainRoom :: room where
  "captainRoom = exampleRoom\<lparr>allowTalkingWhenCaptain := True\<rparr>"

definition storeABC :: muteMap where
  "storeABC = [(conn alice, alice), (conn bob, bob), (conn carol, carol)]"

definition storeAB :: muteMap where
  "storeAB = [(conn alice, alice), (conn bob, bob)]"

definition storeAD :: muteMap where
  "storeAD = [(conn alice, alice), (conn dave, dave)]"

section \<open>Facts about number conversion\<close>

text \<open>
  Every natural number up to \<open>2 ^ 53\<close> is a double, so rounding leaves it alone.
\<close>

lemma round_half_even_of_int: "round_half_even (of_int j) = j"
  by (simp add: round_half_even_def)

lemma bitlen_le_53: "0 < n \<Longrightarrow> n < 2 ^ 53 \<Longrightarrow> bitlen (int n) \<le> 53"
  by (simp add: bitlen_le_iff_power)

lemma toDouble_exact:
  fixes N j :: int
  assumes s: "q * 2 ^ 1074 = of_int N"
    and k: "nat (bitlen N - 53) = k"
    and j: "N = j * 2 ^ k"
    and small: "N < 2 ^ 2098"
  shows "toDouble q = Fin q"
proof -
  have fl: "\<lfloor>q * 2 ^ 1074\<rfloor> = N" using s by simp
  have "q * 2 ^ 1074 / 2 ^ k = of_int j"
    unfolding s j by simp
  then have m: "round_half_even (q * 2 ^ 1074 / 2 ^ k) = j"
    by (simp add: round_half_even_of_int)
  have q: "of_int N / 2 ^ 1074 = q"
    using s by (metis nonzero_mult_div_cancel_right power_not_zero zero_neq_numeral)
  show ?thesis
    unfolding toDouble_def Let_def fl k m
    using small q j by (simp del: power_numeral)
qed

lemma toDouble_of_nat:
  assumes "n \<le> 2 ^ 53"
  shows "toDouble (of_nat n) = Fin (of_nat n)"
proof (cases "n = 0")
  case True
  show ?thesis
    by (rule toDouble_exact [where N = 0 and j = 0 and k = 0]) (simp_all add: True)
next
  case False
  then have pos: "0 < int n" by simp
  have bl: "bitlen (int n * 2 ^ 1074) = bitlen (int n) + 1074"
    using bitlen_pow2 [OF pos, of 1074] by simp
  have b1: "1 \<le> bitlen (int n)"
    using pos by (simp add: bitlen_alt_def)
  show ?thesis
  proof (cases "n = 2 ^ 53")
    case True
    have b: "bitlen (int n) = 54"
      using bitlen_pow2 [of 1 53] by (simp add: True bitlen_alt_def)
    show ?thesis
    proof (rule toDouble_exact [where N = "int n * 2 ^ 1074" and j = "2 ^ 52" and k = 1075])
      show "(of_nat n :: rat) * 2 ^ 1074 = of_int (int n * 2 ^ 1074)" by simp
      show "nat (bitlen (int n * 2 ^ 1074) - 53) = 1075" by (simp add: bl b del: power_numeral)
      show "int n * 2 ^ 1074 = 2 ^ 52 * 2 ^ 1075"
        unfolding True by (simp add: power_add [symmetric] del: power_numeral)
      show "int n * 2 ^ 1074 < 2 ^ 2098"
        unfolding True by (simp add: power_add [symmetric] del: power_numeral)
    qed
  next
    case F2: False
    with assms have lt: "n < 2 ^ 53" by simp
    then have b53: "bitlen (int n) \<le> 53"
      using False by (simp add: bitlen_le_53)
    define k where "k = nat (bitlen (int n) + 1021)"
    have k_le: "k \<le> 1074" using b53 b1 by (simp add: k_def)
    show ?thesis
    proof (rule toDouble_exact [where N = "int n * 2 ^ 1074" and j = "int n * 2 ^ (1074 - k)" and k = k])
      show "(of_nat n :: rat) * 2 ^ 1074 = of_int (int n * 2 ^ 1074)" by simp
      show "nat (bitlen (int n * 2 ^ 1074) - 53) = k" by (simp add: bl k_def del: power_numeral)
      show "int n * 2 ^ 1074 = int n * 2 ^ (1074 - k) * 2 ^ k"
        using k_le by (simp add: power_add [symmetric] del: power_numeral)
      have "int n < 2 ^ 53"
        using lt by (metis of_nat_less_iff of_nat_numeral of_nat_power)
      then have "int n * 2 ^ 1074 < 2 ^ 53 * 2 ^ 1074"
        by (rule mult_strict_right_mono) simp
      also have "\<dots> < (2::int) ^ 2098" by (simp add: power_add [symmetric] del: power_numeral)
      finally show "int n * 2 ^ 1074 < 2 ^ 2098" .
    qed
  qed
qed

text \<open>
  The decimal numeral of a natural number consists of digits and reads back as the number.
\<close>

lemma digit_char:
  assumes "d < 10"
  shows "isDecimalDigit (char_of (48 + d))" and "digitValue (char_of (48 + d)) = d"
  using assms by (simp_all add: isDecimalDigit_def digitValue_def)

lemma digitsValue_snoc: "digitsValue b (xs @ [c]) = digitsValue b xs * b + digitValue c"
  by (simp add: digitsValue_def)

lemma natToString_digits: "list_all isDecimalDigit (natToString n)"
proof (induction n rule: natToString.induct)
  case (1 n)
  show ?case
  proof (cases "n < 10")
    case True
    then show ?thesis by (subst natToString.simps) (simp add: digit_char)
  next
    case False
    then show ?thesis using 1 by (subst natToString.simps) (simp add: digit_char)
  qed
qed

lemma natToString_nonempty: "natToString n \<noteq> []"
  by (subst natToString.simps) simp

lemma digitsValue_natToString: "digitsValue 10 (natToString n) = n"
proof (induction n rule: natToString.induct)
  case (1 n)
  show ?case
  proof (cases "n < 10")
    case True
    then show ?thesis
      by (subst natToString.simps) (simp add: digitsValue_def digit_char)
  next
    case False
    then show ?thesis using 1
      by (subst natToString.simps) (simp add: digitsValue_snoc digit_char)
  qed
qed

lemma digit_not_space: "isDecimalDigit c \<Longrightarrow> \<not> isStrWhiteSpaceChar c"
  by (auto simp: isDecimalDigit_def isStrWhiteSpaceChar_def)

lemma dropWhile_none: "(\<And>c. c \<in> set s \<Longrightarrow> \<not> P c) \<Longrightarrow> dropWhile P s = s"
  by (cases s) auto

lemma takeWhile_no_digit:
  assumes "\<And>c. c \<in> set s \<Longrightarrow> \<not> P c"
  shows "takeWhile P s = []"
  using assms by (cases s) auto

lemma trimString_id:
  assumes "\<And>c. c \<in> set s \<Longrightarrow> \<not> isStrWhiteSpaceChar c"
  shows "trimString s = s"
proof -
  have a: "dropWhile isStrWhiteSpaceChar s = s"
    using assms by (rule dropWhile_none)
  have b: "dropWhile isStrWhiteSpaceChar (rev s) = rev s"
    using assms by (intro dropWhile_none) simp
  show ?thesis by (simp add: trimString_def a b)
qed

lemma trimString_keeps_head:
  assumes "\<not> isStrWhiteSpaceChar c"
  shows "\<exists>t'. trimString (c # t) = c # t'"
proof -
  have "dropWhile isStrWhiteSpaceChar (rev t @ [c]) =
        (if \<forall>x\<in>set (rev t). isStrWhiteSpaceChar x then [c] else dropWhile isStrWhiteSpaceChar (rev t) @ [c])"
    using assms by (simp add: dropWhile_append)
  then have "trimString (c # t) =
      c # (if \<forall>x\<in>set t. isStrWhiteSpaceChar x then [] else rev (dropWhile isStrWhiteSpaceChar (rev t)))"
    using assms by (simp add: trimString_def)
  then show ?thesis by blast
qed

lemma set_trimString: "set (trimString s) \<subseteq> set s"
proof -
  have "set (dropWhile isStrWhiteSpaceChar (rev (dropWhile isStrWhiteSpaceChar s)))
          \<subseteq> set (rev (dropWhile isStrWhiteSpaceChar s))"
    by (rule set_dropWhileD [THEN subsetI])
  also have "\<dots> \<subseteq> set s"
    using set_dropWhileD [of _ isStrWhiteSpaceChar s] by auto
  finally show ?thesis by (simp add: trimString_def)
qed

lemma digit_not_letter:
  assumes "isDecimalDigit c"
  shows "c \<noteq> CHR ''x''" "c \<noteq> CHR ''X''" "c \<noteq> CHR ''o''" "c \<noteq> CHR ''O''"
    "c \<noteq> CHR ''b''" "c \<noteq> CHR ''B''" "c \<noteq> CHR ''+''" "c \<noteq> CHR ''-''"
    "c \<noteq> CHR ''I''" "c \<noteq> CHR ''#''" "c \<noteq> CHR ''.''"
  using assms by (auto simp: isDecimalDigit_def)

lemma parseNonDecimal_digits:
  assumes "list_all isDecimalDigit s"
  shows "parseNonDecimalIntegerLiteral s = None"
proof (cases s)
  case Nil
  then show ?thesis by (simp add: parseNonDecimalIntegerLiteral_def)
next
  case (Cons z r)
  show ?thesis
  proof (cases r)
    case Nil
    then show ?thesis by (simp add: parseNonDecimalIntegerLiteral_def Cons)
  next
    case (Cons c ds)
    with assms \<open>s = z # r\<close> have "isDecimalDigit c" by simp
    from digit_not_letter [OF this] show ?thesis
      by (simp add: parseNonDecimalIntegerLiteral_def Cons \<open>s = z # r\<close>)
  qed
qed

lemma parseUnsigned_digits:
  assumes "list_all isDecimalDigit s" "s \<noteq> []"
  shows "parseStrUnsignedDecimalLiteral s = Some (of_nat (digitsValue 10 s))"
proof -
  have tw: "takeWhile isDecimalDigit s = s"
    using assms(1) by (simp add: takeWhile_eq_all_conv list_all_iff)
  have dw: "dropWhile isDecimalDigit s = []"
    using assms(1) by (simp add: dropWhile_eq_Nil_conv list_all_iff)
  show ?thesis
    using assms(2)
    by (simp add: parseStrUnsignedDecimalLiteral_def tw dw parseExponentPart_def)
qed

lemma StringToNumber_digits:
  assumes "list_all isDecimalDigit s" "s \<noteq> []" "digitsValue 10 s \<le> 2 ^ 53"
  shows "StringToNumber s = Fin (of_nat (digitsValue 10 s))"
proof -
  have t: "trimString s = s"
    using assms(1) by (intro trimString_id) (simp add: list_all_iff digit_not_space)
  from assms(1,2) have hd: "isDecimalDigit (hd s)"
    by (cases s) simp_all
  from assms(1,2) have inf: "s \<noteq> ''Infinity''"
    using digit_not_letter(9) by (cases s) auto
  show ?thesis
    using assms(2) digit_not_letter(7,8) [OF hd] inf
    by (simp add: StringToNumber_def t parseNonDecimal_digits [OF assms(1)]
        parseUnsigned_digits [OF assms(1,2)] toDouble_of_nat [OF assms(3)])
qed

lemma StringToNumber_natToString:
  assumes "n \<le> 2 ^ 53"
  shows "StringToNumber (natToString n) = Fin (of_nat n)"
  using StringToNumber_digits [OF natToString_digits natToString_nonempty, of n] assms
  by (simp add: digitsValue_natToString)

lemma StringToNumber_hash: "StringToNumber (CHR ''#'' # t) = NaN"
proof -
  have "\<not> isStrWhiteSpaceChar CHR ''#''"
    by (simp add: isStrWhiteSpaceChar_def)
  then obtain t' where t: "trimString (CHR ''#'' # t) = CHR ''#'' # t'"
    using trimString_keeps_head by blast
  have nd: "\<not> isDecimalDigit CHR ''#''"
    by (simp add: isDecimalDigit_def)
  have "parseNonDecimalIntegerLiteral (CHR ''#'' # t') = None"
    by (simp add: parseNonDecimalIntegerLiteral_def split: list.splits)
  moreover have "parseStrUnsignedDecimalLiteral (CHR ''#'' # t') = None"
    by (simp add: parseStrUnsignedDecimalLiteral_def nd)
  ultimately show ?thesis
    by (simp add: StringToNumber_def t)
qed

lemma StringToNumber_no_digit:
  assumes nod: "\<And>c. c \<in> set s \<Longrightarrow> \<not> isDecimalDigit c"
    and t: "trimString s \<noteq> []" "trimString s \<noteq> ''Infinity''"
      "trimString s \<noteq> ''+Infinity''" "trimString s \<noteq> ''-Infinity''"
  shows "StringToNumber s = NaN"
proof -
  define t where "t = trimString s"
  have nt: "\<And>c. c \<in> set t \<Longrightarrow> \<not> isDecimalDigit c"
    using nod set_trimString [of s] by (auto simp: t_def)
  have z: "isDecimalDigit CHR ''0''" by (simp add: isDecimalDigit_def)
  have nondec: "parseNonDecimalIntegerLiteral t = None"
  proof (cases t)
    case Nil
    then show ?thesis by (simp add: parseNonDecimalIntegerLiteral_def)
  next
    case (Cons a r)
    with nt [of a] z have "a \<noteq> CHR ''0''" by auto
    then show ?thesis
      by (cases r) (simp_all add: parseNonDecimalIntegerLiteral_def Cons)
  qed
  define u where "u = (if hd t = CHR ''+'' \<or> hd t = CHR ''-'' then tl t else t)"
  have su: "set u \<subseteq> set t"
    by (cases t) (auto simp: u_def)
  have nu: "\<And>c. c \<in> set u \<Longrightarrow> \<not> isDecimalDigit c"
    using nt su by blast
  have uinf: "u \<noteq> ''Infinity''"
  proof
    assume a: "u = ''Infinity''"
    from t(1) have ht: "t = hd t # tl t" by (simp add: t_def)
    show False
    proof (cases "hd t = CHR ''+'' \<or> hd t = CHR ''-''")
      case True
      then have "t = hd t # ''Infinity''" using ht a by (simp add: u_def)
      with True have "t = ''+Infinity'' \<or> t = ''-Infinity''" by auto
      with t(3,4) show False by (simp add: t_def)
    next
      case False
      then have "t = ''Infinity''" using a by (simp add: u_def)
      with t(2) show False by (simp add: t_def)
    qed
  qed
  have ip: "takeWhile isDecimalDigit u = []"
    using nu by (rule takeWhile_no_digit)
  have dw: "dropWhile isDecimalDigit u = u"
    using nu by (rule dropWhile_none)
  have "set (tl u) \<subseteq> set u" by (cases u) auto
  with nu have fp: "takeWhile isDecimalDigit (tl u) = []"
    by (intro takeWhile_no_digit) blast
  have "parseStrUnsignedDecimalLiteral u = None"
    by (simp add: parseStrUnsignedDecimalLiteral_def ip dw fp Let_def)
  then show ?thesis
    using t(1) nondec uinf
    by (simp add: StringToNumber_def t_def [symmetric] u_def [symmetric] Let_def)
qed

lemma parseId_hash:
  "parseId (Str (CHR ''#'' # t)) =
     (if isNaN (StringToNumber t) then None else Some (StringToNumber t))"
  by (simp add: parseId_def ToNumber_def StringToNumber_hash isNaN_def startsWith_def)

lemma parseId_hash2: "parseId (Str ''#2'') = Some (Fin 2)"
proof -
  have "StringToNumber ''2'' = Fin 2"
    using StringToNumber_digits [of "''2''"]
    by (simp add: isDecimalDigit_def digitsValue_def digitValue_def)
  then show ?thesis by (simp add: parseId_hash isNaN_def)
qed

section \<open>Facts about the store\<close>

lemma Map_set_keys_present:
  "k \<in> set (map fst m) \<Longrightarrow> map fst (Map_set m k v) = map fst m"
  by (induction m) auto

lemma Map_set_keys_absent:
  "k \<notin> set (map fst m) \<Longrightarrow> Map_set m k v = m @ [(k, v)]"
  by (induction m) auto

lemma map_of_Map_set: "map_of (Map_set m k v) = (map_of m)(k \<mapsto> v)"
  by (induction m) auto

lemma set_keys_Map_set: "fst ` set (Map_set m k v) = insert k (fst ` set m)"
  by (induction m) auto

lemma distinct_Map_set: "distinct (map fst m) \<Longrightarrow> distinct (map fst (Map_set m k v))"
  by (induction m) (auto simp: set_keys_Map_set)

lemma one_entry_Map_set:
  "distinct (map fst m) \<Longrightarrow> length (filter (\<lambda>e. fst e = k) (Map_set m k v)) = 1"
proof (induction m)
  case Nil
  show ?case by simp
next
  case (Cons e es)
  show ?case
  proof (cases "fst e = k")
    case True
    with Cons.prems have "k \<notin> fst ` set es" by auto
    then have "filter (\<lambda>e. fst e = k) es = []"
      by (auto simp: filter_empty_conv)
    with True show ?thesis by simp
  next
    case False
    with Cons show ?thesis by simp
  qed
qed

lemma Map_delete_nth:
  "distinct (map fst m) \<Longrightarrow> i < length m \<Longrightarrow>
     Map_delete m (fst (m ! i)) = take i m @ drop (Suc i) m"
proof (induction m arbitrary: i)
  case Nil
  then show ?case by simp
next
  case (Cons e es)
  show ?case
  proof (cases i)
    case 0
    then show ?thesis by simp
  next
    case (Suc j)
    with Cons.prems have "j < length es" "fst e \<noteq> fst (es ! j)" by auto
    with Cons.IH [of j] Cons.prems(1) Suc show ?thesis by simp
  qed
qed

lemma Map_get_nth:
  "distinct (map fst m) \<Longrightarrow> i < length m \<Longrightarrow> Map_get m (fst (m ! i)) = Some (snd (m ! i))"
  by (simp add: Map_get_def)

lemma removeMute_loop_miss:
  "(\<And>k. k < length ks \<Longrightarrow> \<not> strictEqualsCounter (i + k) x) \<Longrightarrow>
     removeMute_loop x i ks m = (None, m, [])"
proof (induction ks arbitrary: i)
  case Nil
  show ?case by simp
next
  case (Cons key keys)
  from Cons.prems [of 0] have "\<not> strictEqualsCounter i x" by simp
  moreover have "removeMute_loop x (Suc i) keys m = (None, m, [])"
  proof (rule Cons.IH)
    fix k assume "k < length keys"
    then show "\<not> strictEqualsCounter (Suc i + k) x"
      using Cons.prems [of "Suc k"] by simp
  qed
  ultimately show ?case by simp
qed

lemma removeMute_loop_hit:
  "j < length ks \<Longrightarrow>
     removeMute_loop (Num (Fin (of_nat (i + j)))) i ks m =
       (Map_get m (ks ! j), Map_delete m (ks ! j), [PersistPluginData])"
proof (induction ks arbitrary: i j)
  case Nil
  then show ?case by simp
next
  case (Cons key keys)
  show ?case
  proof (cases j)
    case 0
    then show ?thesis by (simp add: strictEqualsCounter_def)
  next
    case (Suc j')
    with Cons.prems have "j' < length keys" by simp
    from Cons.IH [OF this, of "Suc i"] Suc show ?thesis
      by (simp add: strictEqualsCounter_def)
  qed
qed

lemma removeMute_loop_string: "removeMute_loop (Str s) i ks m = (None, m, [])"
  by (rule removeMute_loop_miss) (simp add: strictEqualsCounter_def)

subsection \<open>Objects and the two persistence loops\<close>

lemma keys_insertArrayIndex:
  "fst ` set (insertArrayIndex k v obj) = insert k (fst ` set obj)"
  by (induction obj) auto

lemma map_of_insertArrayIndex:
  "k \<notin> fst ` set obj \<Longrightarrow> map_of (insertArrayIndex k v obj) = (map_of obj)(k \<mapsto> v)"
  by (induction obj) (auto simp: fun_upd_twist)

lemma distinct_insertArrayIndex:
  "distinct (map fst obj) \<Longrightarrow> k \<notin> fst ` set obj \<Longrightarrow>
     distinct (map fst (insertArrayIndex k v obj))"
  by (induction obj) (auto simp: keys_insertArrayIndex)

lemma map_of_Object_set:
  "k \<noteq> ''__proto__'' \<Longrightarrow> map_of (Object_set obj k v) = (map_of obj)(k \<mapsto> v)"
  by (simp add: Object_set_def Map_has_def map_of_insertArrayIndex map_of_Map_set)

lemma distinct_Object_set:
  "distinct (map fst obj) \<Longrightarrow> distinct (map fst (Object_set obj k v))"
  by (simp add: Object_set_def Map_has_def distinct_insertArrayIndex distinct_Map_set)

lemma map_of_rev_distinct: "distinct (map fst xs) \<Longrightarrow> map_of (rev xs) = map_of xs"
  by (subst map_of_inject_set) (simp_all add: rev_map [symmetric])

lemma fold_Object_set:
  "''__proto__'' \<notin> fst ` set xs \<Longrightarrow>
     map_of (fold (\<lambda>(key, value) obj. Object_set obj key value) xs acc)
       = map_of acc ++ map_of (rev xs)"
proof (induction xs arbitrary: acc)
  case Nil
  show ?case by simp
next
  case (Cons e es)
  obtain k v where e: "e = (k, v)" by (cases e)
  with Cons.prems have k: "k \<noteq> ''__proto__''" and es: "''__proto__'' \<notin> fst ` set es"
    by auto
  have "map_of (fold (\<lambda>(key, value) obj. Object_set obj key value) (e # es) acc)
      = map_of (Object_set acc k v) ++ map_of (rev es)"
    using Cons.IH [OF es] by (simp add: e)
  also have "\<dots> = map_of acc ++ map_of (rev (e # es))"
    by (simp add: map_of_Object_set [OF k] e map_add_upd_left [symmetric] map_add_assoc
        del: map_add_upd_left)
  finally show ?case .
qed

lemma fold_Object_set_distinct:
  "distinct (map fst acc) \<Longrightarrow>
     distinct (map fst (fold (\<lambda>(key, value) obj. Object_set obj key value) xs acc))"
  by (induction xs arbitrary: acc) (auto simp: distinct_Object_set)

lemma fold_Map_set:
  "map_of (fold (\<lambda>(key, value) mm. Map_set mm key value) xs acc) = map_of acc ++ map_of (rev xs)"
proof (induction xs arbitrary: acc)
  case Nil
  show ?case by simp
next
  case (Cons e es)
  obtain k v where e: "e = (k, v)" by (cases e)
  have "map_of (fold (\<lambda>(key, value) mm. Map_set mm key value) (e # es) acc)
      = map_of (Map_set acc k v) ++ map_of (rev es)"
    using Cons.IH by (simp add: e)
  also have "\<dots> = map_of acc ++ map_of (rev (e # es))"
    by (simp add: map_of_Map_set e map_add_upd_left [symmetric] map_add_assoc
        del: map_add_upd_left)
  finally show ?case .
qed

lemma fold_Map_set_distinct:
  "distinct (map fst acc) \<Longrightarrow>
     distinct (map fst (fold (\<lambda>(key, value) mm. Map_set mm key value) xs acc))"
  by (induction xs arbitrary: acc) (auto simp: distinct_Map_set)

subsection \<open>The keys of the store stay distinct\<close>

text \<open>
  A \<^verbatim>\<open>Map\<close> never holds a key twice. The list that stands for \<open>muteMap\<close> keeps that
  property under every operation the plugin applies to it.
\<close>

lemma keys_Map_delete: "fst ` set (Map_delete m k) \<subseteq> fst ` set m"
  by (induction m) auto

lemma distinct_Map_delete: "distinct (map fst m) \<Longrightarrow> distinct (map fst (Map_delete m k))"
proof (induction m)
  case Nil
  show ?case by simp
next
  case (Cons e es)
  then show ?case
    using keys_Map_delete [of es k] by auto
qed

lemma removeMute_loop_store:
  "fst (snd (removeMute_loop x i ks m)) = m
   \<or> (\<exists>k. fst (snd (removeMute_loop x i ks m)) = Map_delete m k)"
  by (induction ks arbitrary: i) auto

lemma removeMute_store:
  "fst (snd (removeMute r a m)) = m \<or> (\<exists>k. fst (snd (removeMute r a m)) = Map_delete m k)"
proof (cases "isHashPrefixed a")
  case True
  then show ?thesis
    by (auto simp: removeMute_def split: option.splits)
next
  case False
  then show ?thesis
    using removeMute_loop_store [of a 0 "Map_keys m" m]
    by (auto simp: removeMute_def)
qed

lemma mutePlayer_keeps_distinct:
  "distinct (Map_keys m) \<Longrightarrow> distinct (Map_keys (fst (mutePlayer p m)))"
  by (simp add: mutePlayer_def Map_keys_def distinct_Map_set)

lemma removeMute_keeps_distinct:
  "distinct (Map_keys m) \<Longrightarrow> distinct (Map_keys (fst (snd (removeMute r a m))))"
  using removeMute_store [of r a m]
  by (auto simp: Map_keys_def distinct_Map_delete)

lemma deserializeMuteMap_distinct:
  "deserializeMuteMap r d = Inr m' \<Longrightarrow> distinct (Map_keys m')"
  by (auto simp: deserializeMuteMap_def Map_keys_def fold_Map_set_distinct split: sum.splits)

subsection \<open>The keys of the store stay identity tokens\<close>

lemma identity_token_not_proto: "isIdentityToken k \<Longrightarrow> k \<noteq> ''__proto__''"
  by (auto simp: isIdentityToken_def isHexDigit_def)

lemma mutePlayer_keeps_tokens:
  "isIdentityToken (conn p) \<Longrightarrow> list_all isIdentityToken (Map_keys m) \<Longrightarrow>
     list_all isIdentityToken (Map_keys (fst (mutePlayer p m)))"
  using set_keys_Map_set [of m "conn p" p]
  by (auto simp: mutePlayer_def Map_keys_def list_all_iff)

lemma removeMute_keeps_tokens:
  assumes "list_all isIdentityToken (Map_keys m)"
  shows "list_all isIdentityToken (Map_keys (fst (snd (removeMute r a m))))"
proof -
  have sub: "set (Map_keys (fst (snd (removeMute r a m)))) \<subseteq> set (Map_keys m)"
  proof (cases "fst (snd (removeMute r a m)) = m")
    case True
    then show ?thesis by simp
  next
    case False
    then obtain k where "fst (snd (removeMute r a m)) = Map_delete m k"
      using removeMute_store [of r a m] by blast
    then show ?thesis
      using keys_Map_delete [of m k] by (simp add: Map_keys_def)
  qed
  show ?thesis
    unfolding list_all_iff
  proof
    fix k assume "k \<in> set (Map_keys (fst (snd (removeMute r a m))))"
    with sub have "k \<in> set (Map_keys m)" by blast
    with assms show "isIdentityToken k" by (simp add: list_all_iff)
  qed
qed

subsection \<open>The round trip through an object\<close>

text \<open>
  Serializing and deserializing keeps every entry whose key is not \<^verbatim>\<open>__proto__\<close>, which
  is no identity token of the host.
\<close>

lemma roundtrip_without_proto_key:
  assumes "distinct (Map_keys m)"
    and "\<not> Map_has m ''__proto__''"
    and "JSON_parse r (JSON_stringify r (muteMapToObject m)) = Inr (muteMapToObject m)"
  shows "\<exists>m'. deserializeMuteMap r (serializeMuteMap r m) = Inr m'
            \<and> Map_get m' = Map_get m
            \<and> set (Map_keys m') = set (Map_keys m)
            \<and> distinct (Map_keys m')"
proof -
  define obj where "obj = muteMapToObject m"
  define m' where "m' = fold (\<lambda>(key, value) mm. Map_set mm key value) obj []"
  have d: "deserializeMuteMap r (serializeMuteMap r m) = Inr m'"
    using assms(3) by (simp add: deserializeMuteMap_def serializeMuteMap_def obj_def m'_def)
  have "map_of obj = map_of (rev m)"
    using assms(2) by (simp add: obj_def muteMapToObject_def fold_Object_set Map_has_def)
  then have o: "map_of obj = map_of m"
    using assms(1) by (simp add: map_of_rev_distinct Map_keys_def)
  have od: "distinct (map fst obj)"
    by (simp add: obj_def muteMapToObject_def fold_Object_set_distinct)
  have "map_of m' = map_of (rev obj)"
    by (simp add: m'_def fold_Map_set)
  then have g: "map_of m' = map_of m"
    using od o by (simp add: map_of_rev_distinct)
  have "dom (map_of m') = dom (map_of m)"
    by (simp add: g)
  then have k: "set (Map_keys m') = set (Map_keys m)"
    by (simp add: dom_map_of_conv_image_fst Map_keys_def)
  have "distinct (Map_keys m')"
    by (simp add: m'_def Map_keys_def fold_Map_set_distinct)
  with d g k show ?thesis
    by (auto simp: Map_get_def fun_eq_iff)
qed

section \<open>Facts about the example room\<close>

lemmas ex_defs = alice_def bob_def carol_def

lemma exampleRoom_fields:
  "getPlayerList exampleRoom = [alice, bob, carol]"
  "muteMessage exampleRoom = ''You cannot send messages because you are muted.''"
  "protectedRoles exampleRoom = Some [''host'', ''admin'']"
  "allowedRoles exampleRoom = [''admin'', ''admin'']"
  "allowTalkingWhenCaptain exampleRoom = False"
  "sav_roles exampleRoom = Some exampleRoles"
  by (simp_all add: exampleRoom_def)

lemma captainRoom_fields:
  "getPlayerList captainRoom = [alice, bob, carol]"
  "muteMessage captainRoom = ''You cannot send messages because you are muted.''"
  "allowTalkingWhenCaptain captainRoom = True"
  by (simp_all add: captainRoom_def exampleRoom_def)

lemma exampleRoom_allowed:
  "isPlayerAllowedToRunCommand exampleRoom alice"
  "\<not> isPlayerAllowedToRunCommand exampleRoom carol"
  by (simp_all add: isPlayerAllowedToRunCommand_def exampleRoom_fields exampleRoles_def ex_defs)

lemma exampleRoom_getPlayer:
  "getPlayer exampleRoom (Some (Fin 2)) = Some bob"
  by (simp add: exampleRoom_def ex_defs)

lemma exampleRoom_protected:
  "isPlayerProtected exampleRoom (player_id bob) = Inr True"
  by (simp add: isPlayerProtected_def exampleRoom_fields exampleRoles_def bob_def)

lemma muteMapToObject_storeAD: "muteMapToObject storeAD = exampleObject"
  by (simp add: muteMapToObject_def storeAD_def exampleObject_def Object_set_def Map_has_def
      isArrayIndex_def isDecimalDigit_def digitsValue_def digitValue_def ex_defs dave_def)

lemma exampleRoom_json:
  "JSON_stringify exampleRoom exampleObject = exampleBlob"
  "JSON_parse exampleRoom exampleBlob = Inr exampleObject"
  "JSON_stringify exampleRoom [] = ''{}''"
  "JSON_parse exampleRoom ''{}'' = Inr []"
  by (simp_all add: exampleRoom_def exampleObject_def exampleBlob_def)

text \<open>
  A snapshot stored under \<^verbatim>\<open>__proto__\<close> does not become a property of the serialized
  object: the restored store lacks it.
\<close>

lemma proto_key_is_not_serialized:
  "distinct (Map_keys (fst (mutePlayer mallory [])))
   \<and> JSON_parse exampleRoom (JSON_stringify exampleRoom (muteMapToObject (fst (mutePlayer mallory []))))
        = Inr (muteMapToObject (fst (mutePlayer mallory [])))
   \<and> Map_has (fst (mutePlayer mallory [])) (conn mallory)
   \<and> deserializeMuteMap exampleRoom (serializeMuteMap exampleRoom (fst (mutePlayer mallory [])))
        = Inr []
   \<and> \<not> Map_has [] (conn mallory)"
proof -
  have o: "muteMapToObject (fst (mutePlayer mallory [])) = []"
    by (simp add: muteMapToObject_def mutePlayer_def Object_set_def mallory_def)
  show ?thesis
    by (simp add: o serializeMuteMap_def deserializeMuteMap_def exampleRoom_json)
      (simp add: mutePlayer_def Map_keys_def Map_has_def)
qed

section \<open>The claims\<close>

subsection \<open>C1: the chat policy\<close>

text \<open>
  Claim C1. A chat message from a sender whose \<open>conn\<close> is not in the store is allowed and
  nothing is sent. When the sender is in the store and \<open>allowTalkingWhenCaptain\<close> is off,
  the hook returns \<^verbatim>\<open>false\<close> and sends \<open>muteMessage\<close> to the sender alone, whoever leads
  the teams. When the sender is in the store, the option is on and the first player
  listed for the red or the blue team has the sender's id, the message is allowed.
\<close>

theorem chat_policy:
  "(\<not> Map_has m (conn p) \<longrightarrow> handlePlayerChat r p m = (None, []))
   \<and> (Map_has m (conn p) \<and> \<not> allowTalkingWhenCaptain r \<longrightarrow>
        handlePlayerChat r p m =
          (Some False, [SendAnnouncement (muteMessage r) (Some (player_id p)) 0xFF0000]))
   \<and> (Map_has m (conn p) \<and> allowTalkingWhenCaptain r
        \<and> getPlayerList r = before @ c # after \<and> player_id c = player_id p
        \<and> (team c = 1 \<or> team c = 2) \<and> (\<forall>q \<in> set before. team q \<noteq> team c) \<longrightarrow>
        handlePlayerChat r p m = (None, []))"
proof (intro conjI impI)
  assume "\<not> Map_has m (conn p)"
  then show "handlePlayerChat r p m = (None, [])"
    by (simp add: handlePlayerChat_def isMuted_def)
next
  assume "Map_has m (conn p) \<and> \<not> allowTalkingWhenCaptain r"
  then show "handlePlayerChat r p m =
      (Some False, [SendAnnouncement (muteMessage r) (Some (player_id p)) 0xFF0000])"
    by (simp add: handlePlayerChat_def isMuted_def)
next
  assume a: "Map_has m (conn p) \<and> allowTalkingWhenCaptain r
        \<and> getPlayerList r = before @ c # after \<and> player_id c = player_id p
        \<and> (team c = 1 \<or> team c = 2) \<and> (\<forall>q \<in> set before. team q \<noteq> team c)"
  then have "find (\<lambda>q. team q = team c) (getPlayerList r) = Some c"
    by (auto simp: find_Some_iff nth_append intro!: exI [of _ "length before"])
  with a have "isPlayerTeamCaptain r p"
    by (auto simp: isPlayerTeamCaptain_def Let_def split: option.splits)
  with a show "handlePlayerChat r p m = (None, [])"
    by (simp add: handlePlayerChat_def isMuted_def)
qed

text \<open>
  In the example room alice is muted and is the first red player: with the option off she
  is silenced although she is captain, with the option on she may talk; bob is not muted.
\<close>

theorem chat_policy_witness:
  "\<not> Map_has [(conn alice, alice)] (conn bob)
   \<and> handlePlayerChat exampleRoom bob [(conn alice, alice)] = (None, [])
   \<and> Map_has [(conn alice, alice)] (conn alice)
   \<and> \<not> allowTalkingWhenCaptain exampleRoom
   \<and> isPlayerTeamCaptain exampleRoom alice
   \<and> handlePlayerChat exampleRoom alice [(conn alice, alice)] =
       (Some False,
        [SendAnnouncement ''You cannot send messages because you are muted.'' (Some 1) 0xFF0000])
   \<and> allowTalkingWhenCaptain captainRoom
   \<and> getPlayerList captainRoom = [] @ alice # [bob, carol]
   \<and> handlePlayerChat captainRoom alice [(conn alice, alice)] = (None, [])"
proof -
  have h1: "\<not> Map_has [(conn alice, alice)] (conn bob)"
    by (simp add: Map_has_def ex_defs)
  have h2: "Map_has [(conn alice, alice)] (conn alice) \<and> \<not> allowTalkingWhenCaptain exampleRoom"
    by (simp add: Map_has_def exampleRoom_fields)
  have h3: "Map_has [(conn alice, alice)] (conn alice) \<and> allowTalkingWhenCaptain captainRoom
        \<and> getPlayerList captainRoom = [] @ alice # [bob, carol] \<and> player_id alice = player_id alice
        \<and> (team alice = 1 \<or> team alice = 2) \<and> (\<forall>q \<in> set []. team q \<noteq> team alice)"
    by (simp add: Map_has_def captainRoom_fields alice_def)
  have cap: "isPlayerTeamCaptain exampleRoom alice"
    by (simp add: isPlayerTeamCaptain_def exampleRoom_fields ex_defs)
  note c1 = chat_policy [of "[(conn alice, alice)]" bob exampleRoom, THEN conjunct1, THEN mp, OF h1]
  note c2 = chat_policy [of "[(conn alice, alice)]" alice exampleRoom, THEN conjunct2,
      THEN conjunct1, THEN mp, OF h2]
  note c3 = chat_policy [of "[(conn alice, alice)]" alice captainRoom "[]" alice "[bob, carol]",
      THEN conjunct2, THEN conjunct2, THEN mp, OF h3]
  show ?thesis
    using h1 h2 h3 cap c1 c2 c3 by (simp add: exampleRoom_fields alice_def)
qed

subsection \<open>C2: serialize, then deserialize\<close>

text \<open>
  Claim C2. For a store of the plugin (distinct keys, each an identity token of the host)
  whose object survives \<^verbatim>\<open>JSON.parse(JSON.stringify(...))\<close> (snapshots with
  JSON-representable attributes), \<open>deserializeMuteMap (serializeMuteMap m)\<close> is a store with
  the same keys, each mapped to the same snapshot. Muting and unmuting players of the
  host keep the keys distinct and identity tokens, so every store they reach qualifies.
  The order of the entries may differ: keys that are array indices come first.
\<close>

theorem persist_restore_roundtrip:
  assumes "distinct (Map_keys m)"
    and "list_all isIdentityToken (Map_keys m)"
    and "JSON_parse r (JSON_stringify r (muteMapToObject m)) = Inr (muteMapToObject m)"
  shows "\<exists>m'. deserializeMuteMap r (serializeMuteMap r m) = Inr m'
            \<and> Map_get m' = Map_get m
            \<and> set (Map_keys m') = set (Map_keys m)
            \<and> distinct (Map_keys m')"
proof -
  have "\<not> Map_has m ''__proto__''"
  proof
    assume "Map_has m ''__proto__''"
    then have "''__proto__'' \<in> set (Map_keys m)"
      by (simp add: Map_has_def Map_keys_def)
    with assms(2) have "isIdentityToken ''__proto__''"
      by (simp add: list_all_iff)
    then show False
      using identity_token_not_proto by blast
  qed
  with assms(1) show ?thesis
    using assms(3) by (rule roundtrip_without_proto_key)
qed

text \<open>
  Muting alice, then dave (whose \<open>conn\<close> is \<^verbatim>\<open>42\<close>): the restored store lists dave first
  and holds the same two snapshots.
\<close>

theorem persist_restore_roundtrip_witness:
  "storeAD = fst (mutePlayer dave (fst (mutePlayer alice [])))
   \<and> distinct (Map_keys storeAD)
   \<and> list_all isIdentityToken (Map_keys storeAD)
   \<and> serializeMuteMap exampleRoom storeAD = exampleBlob
   \<and> deserializeMuteMap exampleRoom (serializeMuteMap exampleRoom storeAD)
        = Inr [(conn dave, dave), (conn alice, alice)]
   \<and> Map_get [(conn dave, dave), (conn alice, alice)] = Map_get storeAD
   \<and> set (Map_keys [(conn dave, dave), (conn alice, alice)]) = set (Map_keys storeAD)"
proof -
  have r: "storeAD = fst (mutePlayer dave (fst (mutePlayer alice [])))"
    by (simp add: storeAD_def mutePlayer_def ex_defs dave_def)
  have d: "distinct (Map_keys storeAD)"
    by (simp add: storeAD_def Map_keys_def ex_defs dave_def)
  have p: "list_all isIdentityToken (Map_keys storeAD)"
    by (simp add: storeAD_def Map_keys_def ex_defs dave_def isIdentityToken_def isHexDigit_def)
  have j: "JSON_parse exampleRoom (JSON_stringify exampleRoom (muteMapToObject storeAD))
      = Inr (muteMapToObject storeAD)"
    by (simp add: muteMapToObject_storeAD exampleRoom_json)
  have s: "serializeMuteMap exampleRoom storeAD = exampleBlob"
    by (simp add: serializeMuteMap_def muteMapToObject_storeAD exampleRoom_json)
  have e: "deserializeMuteMap exampleRoom (serializeMuteMap exampleRoom storeAD)
        = Inr [(conn dave, dave), (conn alice, alice)]"
    by (simp add: s deserializeMuteMap_def exampleRoom_json exampleObject_def ex_defs dave_def)
  from persist_restore_roundtrip [OF d p j] e
  have "Map_get [(conn dave, dave), (conn alice, alice)] = Map_get storeAD
      \<and> set (Map_keys [(conn dave, dave), (conn alice, alice)]) = set (Map_keys storeAD)"
    by auto
  with r d p s e show ?thesis by simp
qed

subsection \<open>C3: muting a protected target\<close>

text \<open>
  Claim C3, amended. When an authorized actor runs the mute command on a player in the
  room who is protected, the actor gets the immunity announcement, nothing else is sent
  and the store is left as it was: the target is not added, so \<open>isMuted\<close> is false
  afterwards whenever it was false before.
\<close>

theorem mute_protected_target_keeps_store:
  assumes "isPlayerAllowedToRunCommand r byPlayer"
    and "getPlayer r (parseId arg) = Some x"
    and "isPlayerProtected r (player_id x) = Inr True"
  shows "onCommand1_mute r byPlayer arg m =
           Inr (m, [SendAnnouncement ''This player has immunity for mutes.''
                      (Some (player_id byPlayer)) 0xFF0000])"
  using assms by (simp add: onCommand1_mute_def)

theorem mute_protected_target_keeps_store_witness:
  "isPlayerAllowedToRunCommand exampleRoom alice
   \<and> getPlayer exampleRoom (parseId (Str ''#2'')) = Some bob
   \<and> isPlayerProtected exampleRoom (player_id bob) = Inr True
   \<and> \<not> isMuted [(conn carol, carol)] bob
   \<and> onCommand1_mute exampleRoom alice (Str ''#2'') [(conn carol, carol)] =
        Inr ([(conn carol, carol)],
             [SendAnnouncement ''This player has immunity for mutes.'' (Some 1) 0xFF0000])"
proof -
  have g: "getPlayer exampleRoom (parseId (Str ''#2'')) = Some bob"
    by (simp add: parseId_hash2 exampleRoom_getPlayer)
  have n: "\<not> isMuted [(conn carol, carol)] bob"
    by (simp add: isMuted_def Map_has_def ex_defs)
  show ?thesis
    using exampleRoom_allowed(1) g exampleRoom_protected n
      mute_protected_target_keeps_store [OF exampleRoom_allowed(1) g exampleRoom_protected,
        of "[(conn carol, carol)]"]
    by (simp add: alice_def)
qed

text \<open>
  As stated (\<open>has x\<close> is false afterwards), C3 fails when the protected target is in the
  store already, for instance muted before being given the role: the command leaves the
  entry where it is.
\<close>

theorem mute_protected_target_counterexample:
  "isPlayerAllowedToRunCommand exampleRoom alice
   \<and> getPlayer exampleRoom (parseId (Str ''#2'')) = Some bob
   \<and> isPlayerProtected exampleRoom (player_id bob) = Inr True
   \<and> onCommand1_mute exampleRoom alice (Str ''#2'') storeAB =
        Inr (storeAB, [SendAnnouncement ''This player has immunity for mutes.'' (Some 1) 0xFF0000])
   \<and> isMuted storeAB bob"
proof -
  have g: "getPlayer exampleRoom (parseId (Str ''#2'')) = Some bob"
    by (simp add: parseId_hash2 exampleRoom_getPlayer)
  have m: "isMuted storeAB bob"
    by (simp add: isMuted_def Map_has_def storeAB_def)
  have "onCommand1_mute exampleRoom alice (Str ''#2'') storeAB =
        Inr (storeAB, [SendAnnouncement ''This player has immunity for mutes.'' (Some 1) 0xFF0000])"
    using exampleRoom_allowed(1) g exampleRoom_protected
    by (simp add: onCommand1_mute_def alice_def)
  then show ?thesis
    using exampleRoom_allowed(1) g exampleRoom_protected m by simp
qed

subsection \<open>C4: the identifier parser\<close>

text \<open>
  Claim C4 says that every string other than a numeral or \<^verbatim>\<open>#\<close> followed by a numeral is
  invalid. On \<^verbatim>\<open>#\<close> alone, on the empty string and on \<^verbatim>\<open>#\<close> followed by a blank the
  parser returns 0: unary plus reads a blank string as 0.
\<close>

theorem parseId_hash_alone_reads_zero:
  "parseId (Str ''#'') = Some (Fin 0) \<and> parseId (Str '''') = Some (Fin 0)
   \<and> parseId (Str ''# '') = Some (Fin 0)"
  by (simp add: parseId_def ToNumber_def StringToNumber_def trimString_def isStrWhiteSpaceChar_def
      startsWith_def isNaN_def parseNonDecimalIntegerLiteral_def
      parseStrUnsignedDecimalLiteral_def isDecimalDigit_def)

text \<open>
  The rest of what C4 says holds: a number other than NaN is returned as it is; the
  decimal numeral of \<open>k \<le> 2 ^ 53\<close>, with or without a leading \<^verbatim>\<open>#\<close>, is read as \<open>k\<close>;
  a string without a digit that is neither blank nor a signed \<^verbatim>\<open>Infinity\<close> once a leading
  \<^verbatim>\<open>#\<close> is removed is invalid. \<open>parseId\<close> has no error result: unary plus, \<^verbatim>\<open>isNaN\<close>,
  \<^verbatim>\<open>startsWith\<close> and \<^verbatim>\<open>slice\<close> raise nothing on a string or a number.
\<close>

lemma parseId_reads_identifiers:
  "(n \<noteq> NaN \<longrightarrow> parseId (Num n) = Some n)
   \<and> (k \<le> 2 ^ 53 \<longrightarrow>
        parseId (Str (natToString k)) = Some (Fin (of_nat k))
        \<and> parseId (Str (CHR ''#'' # natToString k)) = Some (Fin (of_nat k)))
   \<and> ((\<forall>c \<in> set s. \<not> isDecimalDigit c)
        \<and> trimString (if startsWith s ''#'' then drop 1 s else s)
             \<notin> {[], ''Infinity'', ''+Infinity'', ''-Infinity''} \<longrightarrow>
        parseId (Str s) = None)"
proof (intro conjI impI)
  assume "n \<noteq> NaN"
  then show "parseId (Num n) = Some n"
    by (simp add: parseId_def ToNumber_def isNaN_def)
next
  assume k: "k \<le> 2 ^ 53"
  show "parseId (Str (natToString k)) = Some (Fin (of_nat k))"
    by (simp add: parseId_def ToNumber_def isNaN_def StringToNumber_natToString [OF k])
next
  assume k: "k \<le> 2 ^ 53"
  show "parseId (Str (CHR ''#'' # natToString k)) = Some (Fin (of_nat k))"
    by (simp add: parseId_hash isNaN_def StringToNumber_natToString [OF k])
next
  assume a: "(\<forall>c \<in> set s. \<not> isDecimalDigit c)
        \<and> trimString (if startsWith s ''#'' then drop 1 s else s)
             \<notin> {[], ''Infinity'', ''+Infinity'', ''-Infinity''}"
  show "parseId (Str s) = None"
  proof (cases "startsWith s ''#''")
    case True
    then obtain t where s: "s = CHR ''#'' # t"
      by (cases s) (auto simp: startsWith_def)
    have "StringToNumber t = NaN"
      using a True by (intro StringToNumber_no_digit) (auto simp: s)
    then show ?thesis by (simp add: s parseId_hash isNaN_def)
  next
    case False
    have "StringToNumber s = NaN"
      using a False by (intro StringToNumber_no_digit) auto
    then show ?thesis
      using False by (simp add: parseId_def ToNumber_def isNaN_def)
  qed
qed

lemma parseId_reads_identifiers_example:
  "parseId (Num (Fin 7)) = Some (Fin 7)
   \<and> natToString 12 = ''12''
   \<and> parseId (Str ''12'') = Some (Fin 12)
   \<and> parseId (Str ''#12'') = Some (Fin 12)
   \<and> parseId (Str ''abc'') = None
   \<and> parseId (Str ''#abc'') = None"
proof -
  have n: "natToString 12 = ''12''" by code_simp
  have k: "(12::nat) \<le> 2 ^ 53" by simp
  have a: "(\<forall>c \<in> set ''abc''. \<not> isDecimalDigit c)
        \<and> trimString (if startsWith ''abc'' ''#'' then drop 1 ''abc'' else ''abc'')
             \<notin> {[], ''Infinity'', ''+Infinity'', ''-Infinity''}"
    by (simp add: isDecimalDigit_def startsWith_def trimString_def isStrWhiteSpaceChar_def)
  have b: "(\<forall>c \<in> set ''#abc''. \<not> isDecimalDigit c)
        \<and> trimString (if startsWith ''#abc'' ''#'' then drop 1 ''#abc'' else ''#abc'')
             \<notin> {[], ''Infinity'', ''+Infinity'', ''-Infinity''}"
    by (simp add: isDecimalDigit_def startsWith_def trimString_def isStrWhiteSpaceChar_def)
  note t1 = parseId_reads_identifiers [of "Fin 7", THEN conjunct1]
  note t2 = parseId_reads_identifiers [of _ 12, THEN conjunct2, THEN conjunct1, THEN mp, OF k]
  note t3 = parseId_reads_identifiers [of _ _ "''abc''", THEN conjunct2, THEN conjunct2, THEN mp, OF a]
  note t4 = parseId_reads_identifiers [of _ _ "''#abc''", THEN conjunct2, THEN conjunct2, THEN mp, OF b]
  show ?thesis
    using n t1 t2 t3 t4 by simp
qed

subsection \<open>C5: a string is never an index\<close>

text \<open>
  Claim C5. For a string \<open>s\<close> that does not start with \<^verbatim>\<open>#\<close>, numeric or not,
  \<open>removeMute\<close> returns \<^verbatim>\<open>null\<close>, leaves the store as it is and persists nothing: the loop
  compares its counter with the string itself. So the unmute command of an authorized
  actor, given such a string, removes nothing and sends the could-not-unmute announcement.
\<close>

theorem removeMute_string_index_never_matches:
  assumes "\<not> startsWith s ''#''"
  shows "removeMute r (Str s) m = (None, m, [])
     \<and> (isPlayerAllowedToRunCommand r byPlayer \<longrightarrow>
          onCommand1_unmute r byPlayer (Str s) m =
            (m, [SendAnnouncement
                   (''Could not unmute '' @ s @
                    ''! Make sure the argument is either a number listed in !mutelist or player ID prefixed with #.'')
                   (Some (player_id byPlayer)) 0xFF0000]))"
proof -
  have rm: "removeMute r (Str s) m = (None, m, [])"
    using assms by (simp add: removeMute_def isHashPrefixed_def removeMute_loop_string)
  show ?thesis
    by (simp add: rm onCommand1_unmute_def ToString_def)
qed

theorem removeMute_string_index_never_matches_witness:
  "\<not> startsWith ''1'' ''#''
   \<and> StringToNumber ''1'' = Fin 1
   \<and> isPlayerAllowedToRunCommand exampleRoom alice
   \<and> removeMute exampleRoom (Str ''1'') storeABC = (None, storeABC, [])
   \<and> onCommand1_unmute exampleRoom alice (Str ''1'') storeABC =
        (storeABC,
         [SendAnnouncement
            ''Could not unmute 1! Make sure the argument is either a number listed in !mutelist or player ID prefixed with #.''
            (Some 1) 0xFF0000])"
proof -
  have h: "\<not> startsWith ''1'' ''#''"
    by (simp add: startsWith_def)
  have n: "StringToNumber ''1'' = Fin 1"
    using StringToNumber_digits [of "''1''"]
    by (simp add: isDecimalDigit_def digitsValue_def digitValue_def)
  note t = removeMute_string_index_never_matches [OF h, of exampleRoom storeABC alice]
  show ?thesis
    using h n t exampleRoom_allowed(1) by (simp add: alice_def)
qed

subsection \<open>C6: persisting on every mutation\<close>

text \<open>
  Claim C6 says that the clearmutes command persists the store as the mute and unmute
  commands do. The command of an authorized actor empties the store and announces it to
  the room; \<open>persistPluginData\<close> is not among its calls.
\<close>

theorem clearmutes_does_not_persist:
  assumes "isPlayerAllowedToRunCommand r byPlayer"
  shows "onCommand0_clearmutes r byPlayer m =
           ([], [SendAnnouncement ''All mutes cleared!'' None 0x00FF00])
     \<and> PersistPluginData \<notin> set (snd (onCommand0_clearmutes r byPlayer m))"
  using assms by (simp add: onCommand0_clearmutes_def)

text \<open>
  In the example room: clearing three mutes makes one announcement and no call to the
  persistence plugin, while \<open>mutePlayer\<close> and \<open>removeMute\<close> make that call.
\<close>

theorem clearmutes_does_not_persist_witness:
  "isPlayerAllowedToRunCommand exampleRoom alice
   \<and> onCommand0_clearmutes exampleRoom alice storeABC =
        ([], [SendAnnouncement ''All mutes cleared!'' None 0x00FF00])
   \<and> PersistPluginData \<notin> set (snd (onCommand0_clearmutes exampleRoom alice storeABC))
   \<and> PersistPluginData \<in> set (snd (mutePlayer carol storeAB))
   \<and> PersistPluginData \<in> set (snd (snd (removeMute exampleRoom (Str ''#2'') storeAB)))"
proof -
  have g: "getPlayer exampleRoom (parseId (Str ''#2'')) = Some bob"
    by (simp add: parseId_hash2 exampleRoom_getPlayer)
  have r: "PersistPluginData \<in> set (snd (snd (removeMute exampleRoom (Str ''#2'') storeAB)))"
    by (simp add: removeMute_def isHashPrefixed_def startsWith_def g Map_has_def storeAB_def)
  show ?thesis
    using exampleRoom_allowed(1) r
      clearmutes_does_not_persist [OF exampleRoom_allowed(1), of storeABC]
    by (simp add: mutePlayer_def)
qed

subsection \<open>C7: muting an identity that is muted already\<close>

text \<open>
  Claim C7, amended. Muting a player whose \<open>conn\<close> is already a key of the store replaces
  the snapshot where the entry stands: the keys keep their order, the key is still
  present, exactly one entry holds it and the store is persisted.
\<close>

theorem remute_keeps_position:
  assumes "Map_has m (conn p)" and "distinct (Map_keys m)"
  shows "Map_keys (fst (mutePlayer p m)) = Map_keys m
     \<and> Map_get (fst (mutePlayer p m)) (conn p) = Some p
     \<and> Map_has (fst (mutePlayer p m)) (conn p)
     \<and> length (filter (\<lambda>e. fst e = conn p) (fst (mutePlayer p m))) = 1
     \<and> snd (mutePlayer p m) = [PersistPluginData]"
proof -
  have k: "Map_keys (Map_set m (conn p) p) = Map_keys m"
    using assms(1) by (simp add: Map_keys_def Map_has_def Map_set_keys_present)
  have g: "Map_get (Map_set m (conn p) p) (conn p) = Some p"
    by (simp add: Map_get_def map_of_Map_set)
  have h: "Map_has (Map_set m (conn p) p) (conn p)"
    using k assms(1) by (simp add: Map_has_def Map_keys_def)
  have c: "length (filter (\<lambda>e. fst e = conn p) (Map_set m (conn p) p)) = 1"
    using assms(2) by (simp add: Map_keys_def one_entry_Map_set)
  show ?thesis
    using k g h c by (simp add: mutePlayer_def)
qed

theorem remute_keeps_position_witness:
  "Map_has storeAB (conn (alice\<lparr>name := ''al''\<rparr>))
   \<and> distinct (Map_keys storeAB)
   \<and> mutePlayer (alice\<lparr>name := ''al''\<rparr>) storeAB =
        ([(conn alice, alice\<lparr>name := ''al''\<rparr>), (conn bob, bob)], [PersistPluginData])
   \<and> Map_keys (fst (mutePlayer (alice\<lparr>name := ''al''\<rparr>) storeAB)) = Map_keys storeAB"
proof -
  have h: "Map_has storeAB (conn (alice\<lparr>name := ''al''\<rparr>))"
    by (simp add: storeAB_def Map_has_def)
  have d: "distinct (Map_keys storeAB)"
    by (simp add: storeAB_def Map_keys_def ex_defs)
  have e: "mutePlayer (alice\<lparr>name := ''al''\<rparr>) storeAB =
        ([(conn alice, alice\<lparr>name := ''al''\<rparr>), (conn bob, bob)], [PersistPluginData])"
    by (simp add: mutePlayer_def storeAB_def)
  show ?thesis
    using h d e remute_keeps_position [OF h d] by simp
qed

text \<open>
  As stated (the entry moves to the end of the iteration order), C7 fails: alice is
  first before and after she is muted again.
\<close>

theorem remute_moves_to_end_counterexample:
  "Map_has storeAB (conn alice)
   \<and> Map_keys storeAB = [conn alice, conn bob]
   \<and> Map_keys (fst (mutePlayer alice storeAB)) = [conn alice, conn bob]
   \<and> Map_keys (fst (mutePlayer alice storeAB)) \<noteq> [conn bob, conn alice]"
  by (simp add: storeAB_def Map_has_def Map_keys_def mutePlayer_def ex_defs)

subsection \<open>C8: removing by index\<close>

text \<open>
  Claim C8. On a store with distinct keys, \<open>removeMute\<close> with the number \<open>i\<close> below the
  size of the store returns the \<open>i\<close>-th entry (counting from 0), removes exactly that
  entry and persists; with any other number (out of range, negative, not an integer,
  infinite, NaN) it returns \<^verbatim>\<open>null\<close> and changes nothing.
\<close>

theorem removeMute_by_index:
  assumes "distinct (Map_keys m)"
  shows "(i < length m \<longrightarrow>
            removeMute r (Num (Fin (of_nat i))) m =
              (Some (snd (m ! i)), take i m @ drop (Suc i) m, [PersistPluginData]))
     \<and> ((\<forall>j < length m. x \<noteq> Fin (of_nat j)) \<longrightarrow> removeMute r (Num x) m = (None, m, []))"
proof (intro conjI impI)
  assume i: "i < length m"
  have "removeMute r (Num (Fin (of_nat i))) m =
      removeMute_loop (Num (Fin (of_nat (0 + i)))) 0 (Map_keys m) m"
    by (simp add: removeMute_def isHashPrefixed_def isNaN_def ToNumber_def)
  also have "\<dots> = (Map_get m (Map_keys m ! i), Map_delete m (Map_keys m ! i), [PersistPluginData])"
    using i by (intro removeMute_loop_hit) (simp add: Map_keys_def)
  also have "\<dots> = (Some (snd (m ! i)), take i m @ drop (Suc i) m, [PersistPluginData])"
    using i assms by (simp add: Map_keys_def Map_get_nth Map_delete_nth)
  finally show "removeMute r (Num (Fin (of_nat i))) m =
      (Some (snd (m ! i)), take i m @ drop (Suc i) m, [PersistPluginData])" .
next
  assume x: "\<forall>j < length m. x \<noteq> Fin (of_nat j)"
  have "removeMute_loop (Num x) 0 (Map_keys m) m = (None, m, [])"
  proof (rule removeMute_loop_miss)
    fix k assume "k < length (Map_keys m)"
    with x have "x \<noteq> Fin (of_nat k)" by (simp add: Map_keys_def)
    then show "\<not> strictEqualsCounter (0 + k) (Num x)"
      by (cases x) (auto simp: strictEqualsCounter_def)
  qed
  then show "removeMute r (Num x) m = (None, m, [])"
    by (simp add: removeMute_def isHashPrefixed_def)
qed

text \<open>
  The store holds alice, bob and carol: index 1 removes bob and leaves alice and carol;
  index 1 once more removes carol.
\<close>

theorem removeMute_by_index_witness:
  "distinct (Map_keys storeABC)
   \<and> removeMute exampleRoom (Num (Fin 1)) storeABC =
       (Some bob, [(conn alice, alice), (conn carol, carol)], [PersistPluginData])
   \<and> removeMute exampleRoom (Num (Fin 1)) [(conn alice, alice), (conn carol, carol)] =
       (Some carol, [(conn alice, alice)], [PersistPluginData])
   \<and> removeMute exampleRoom (Num (Fin 3)) storeABC = (None, storeABC, [])
   \<and> removeMute exampleRoom (Num (Fin (3 / 2))) storeABC = (None, storeABC, [])
   \<and> removeMute exampleRoom (Num NaN) storeABC = (None, storeABC, [])"
proof -
  have d: "distinct (Map_keys storeABC)"
    by (simp add: storeABC_def Map_keys_def ex_defs)
  have d2: "distinct (Map_keys [(conn alice, alice), (conn carol, carol)])"
    by (simp add: Map_keys_def ex_defs)
  have l: "length storeABC = 3" by (simp add: storeABC_def)
  have a: "\<forall>j < length storeABC. Fin 3 \<noteq> Fin (of_nat j)"
    by (simp add: l)
  have b: "\<forall>j < length storeABC. Fin (3 / 2) \<noteq> Fin (of_nat j)"
  proof (intro allI impI)
    fix j assume "j < length storeABC"
    then have "j = 0 \<or> j = 1 \<or> j = 2" using l by auto
    then show "Fin (3 / 2) \<noteq> Fin (of_nat j)" by auto
  qed
  have c: "\<forall>j < length storeABC. NaN \<noteq> Fin (of_nat j)"
    by simp
  note t1 = removeMute_by_index [OF d, of 1 exampleRoom, THEN conjunct1]
  note t2 = removeMute_by_index [OF d2, of 1 exampleRoom, THEN conjunct1]
  note t3 = removeMute_by_index [OF d, of _ exampleRoom, THEN conjunct2, THEN mp, OF a]
  note t4 = removeMute_by_index [OF d, of _ exampleRoom, THEN conjunct2, THEN mp, OF b]
  note t5 = removeMute_by_index [OF d, of _ exampleRoom, THEN conjunct2, THEN mp, OF c]
  show ?thesis
    using d t1 t2 t3 t4 t5 by (simp add: storeABC_def)
qed

subsection \<open>C9: commands of an actor who is not allowed\<close>

text \<open>
  Claim C9. When \<open>isPlayerAllowedToRunCommand\<close> is false for the actor, each of the four
  commands makes no call at all (no announcement, no persistence) and leaves the store
  as it is.
\<close>

theorem denied_actor_is_ignored:
  assumes "\<not> isPlayerAllowedToRunCommand r byPlayer"
  shows "onCommand1_mute r byPlayer arg m = Inr (m, [])
     \<and> onCommand1_unmute r byPlayer arg m = (m, [])
     \<and> onCommand0_clearmutes r byPlayer m = (m, [])
     \<and> onCommand0_mutelist r byPlayer m = (m, [])"
  using assms
  by (simp add: onCommand1_mute_def onCommand1_unmute_def onCommand0_clearmutes_def
      onCommand0_mutelist_def)

text \<open>
  carol holds the role \<^verbatim>\<open>player\<close> only, and the allowed role is \<^verbatim>\<open>admin\<close>.
\<close>

theorem denied_actor_is_ignored_witness:
  "hasPlayerRole exampleRoles (player_id carol) ''player''
   \<and> \<not> isPlayerAllowedToRunCommand exampleRoom carol
   \<and> onCommand1_mute exampleRoom carol (Str ''#2'') storeABC = Inr (storeABC, [])
   \<and> onCommand1_unmute exampleRoom carol (Str ''#2'') storeABC = (storeABC, [])
   \<and> onCommand0_clearmutes exampleRoom carol storeABC = (storeABC, [])
   \<and> onCommand0_mutelist exampleRoom carol storeABC = (storeABC, [])"
  using denied_actor_is_ignored [OF exampleRoom_allowed(2), of "Str ''#2''" storeABC]
    exampleRoom_allowed(2)
  by (simp add: exampleRoles_def)

subsection \<open>C10: restoring nothing\<close>

text \<open>
  Claim C10. \<open>handleRestoreData\<close> called with \<^verbatim>\<open>undefined\<close> leaves the store as it is, entry
  for entry and in the same order, whatever the store holds.
\<close>

theorem restore_undefined_keeps_store: "handleRestoreData r None m = Inr m"
  by (simp add: handleRestoreData_def)

theorem restore_undefined_keeps_store_witness:
  "handleRestoreData exampleRoom None [(conn alice, alice), (conn bob, bob)]
     = Inr [(conn alice, alice), (conn bob, bob)]"
  using restore_undefined_keeps_store [of exampleRoom "[(conn alice, alice), (conn bob, bob)]"]
  by simp

end
